theory Spec2Isabelle
  imports Main
begin

section \<open>The options of \<open>ios_lacp_interfaces\<close>\<close>

text \<open>
  One element of the option \<open>config\<close>, as DOCUMENTATION declares its suboptions:
  \<open>name\<close> is a required string, \<open>port_priority\<close> and \<open>max_bundle\<close> are integers and
  \<open>fast_switchover\<close> is a boolean, each of the three optional. An option that was not
  given is \<open>None\<close>; an explicit \<open>false\<close> or \<open>0\<close> is \<open>Some False\<close> or \<open>Some 0\<close>.
\<close>

record InterfaceLacpConfig =
  name :: string
  port_priority :: "int option"
  fast_switchover :: "bool option"
  max_bundle :: "int option"

text \<open>The choices of the option \<open>state\<close>.\<close>

datatype state = Merged | Replaced | Overridden | Deleted | Rendered | Gathered | Parsed

text \<open>
  The parameters of one invocation. A field is \<open>None\<close> when the task does not supply
  the option.
\<close>

record params =
  config :: "InterfaceLacpConfig list option"
  running_config :: "string option"
  state :: "state option"

datatype option_name = Config | Running_config

fun supplied :: "params \<Rightarrow> option_name \<Rightarrow> bool" where
  "supplied p Config = (config p \<noteq> None)"
| "supplied p Running_config = (running_config p \<noteq> None)"

section \<open>Validation of the options\<close>

datatype error =
    Mutually_exclusive "option_name list"
  | Required_if_missing state "option_name list"

text \<open>
  The two tables \<open>main\<close> builds. Every entry of \<open>required_if\<close> is keyed on the option
  \<open>state\<close>, so an entry is the value of \<open>state\<close> and the options it then requires.
\<close>

definition required_if :: "(state \<times> option_name list) list" where
  "required_if =
    [(Merged, [Config]),
     (Replaced, [Config]),
     (Overridden, [Config]),
     (Rendered, [Config]),
     (Parsed, [Running_config])]"

definition mutually_exclusive :: "option_name list list" where
  "mutually_exclusive = [[Config, Running_config]]"

text \<open>
  \<open>Lacp_InterfacesArgs.argument_spec\<close> is not among the source files; the default of
  \<open>state\<close> is the one DOCUMENTATION declares (\<open>default: merged\<close>).
\<close>

definition state_default :: state where
  "state_default = Merged"

text \<open>
  \<open>AnsibleModule\<close> is the framework's constructor. It is modelled by the three steps
  that \<open>main\<close> parameterises, in the framework's order: the groups of mutually
  exclusive options are checked first (a group fails when more than one of its
  options is supplied), then the defaults of the argument spec are filled in, then
  every \<open>required_if\<close> entry whose value is the value of \<open>state\<close> is checked (it fails
  when one of its required options is not supplied). A failed check is
  \<open>fail_json\<close>: the invocation ends there.
\<close>

fun check_mutually_exclusive :: "option_name list list \<Rightarrow> params \<Rightarrow> error option" where
  "check_mutually_exclusive [] p = None"
| "check_mutually_exclusive (g # gs) p =
     (if length (filter (supplied p) g) > 1 then Some (Mutually_exclusive g)
      else check_mutually_exclusive gs p)"

definition set_defaults :: "params \<Rightarrow> params" where
  "set_defaults p =
     (case state p of None \<Rightarrow> p\<lparr>state := Some state_default\<rparr> | Some s \<Rightarrow> p)"

fun check_required_if :: "(state \<times> option_name list) list \<Rightarrow> params \<Rightarrow> error option" where
  "check_required_if [] p = None"
| "check_required_if ((v, requirements) # rs) p =
     (if state p = Some v \<and> filter (\<lambda>r. \<not> supplied p r) requirements \<noteq> []
      then Some (Required_if_missing v (filter (\<lambda>r. \<not> supplied p r) requirements))
      else check_required_if rs p)"

definition AnsibleModule ::
  "(state \<times> option_name list) list \<Rightarrow> option_name list list \<Rightarrow> params \<Rightarrow> error + params"
where
  "AnsibleModule req excl p =
     (case check_mutually_exclusive excl p of
        Some e \<Rightarrow> Inl e
      | None \<Rightarrow>
          (case check_required_if req (set_defaults p) of
             Some e \<Rightarrow> Inl e
           | None \<Rightarrow> Inr (set_defaults p)))"

text \<open>
  \<open>main\<close>: the module is constructed, which validates the options, and only then
  \<open>Lacp_Interfaces(module).execute_module()\<close> runs. The class \<open>Lacp_Interfaces\<close> is
  imported from another file, so \<open>execute_module\<close> is a parameter here.
\<close>

definition main :: "(params \<Rightarrow> 'r) \<Rightarrow> params \<Rightarrow> error + 'r" where
  "main execute_module p =
     (case AnsibleModule required_if mutually_exclusive p of
        Inl e \<Rightarrow> Inl e
      | Inr module \<Rightarrow> Inr (execute_module module))"

section \<open>The reconciliation engine\<close>

text \<open>
  Modelled from the spec: the class \<open>Lacp_Interfaces\<close>, whose \<open>execute_module\<close>
  computes the commands and the after state, is imported by the module
  (\<open>config/lacp_interfaces\<close>) and is not among the source files. The definitions of
  this section follow the spec's section 4.3 step by step: the mappings by name, the
  three partitions of the names, the delta of every attribute, the commands of one
  interface, and the after state as the existing state with the deltas applied.
  Interface names are compared and written as they are given; the spec gives no rule
  that expands a short name. Where the spec leaves the order open it is fixed here:
  the desired interfaces come first, in their order, and overridden then clears the
  remaining existing interfaces in their order; a new interface is added behind the
  existing ones.
\<close>

type_synonym ConfigurationSet = "InterfaceLacpConfig list"

datatype policy = merged | replaced | overridden | deleted

text \<open>
  Modelled from the spec: the commands that the missing engine emits (section 6).
  A command is one line of configuration; \<open>No c\<close> is the negated form of \<open>c\<close>, the
  command prefixed with the negation marker.
\<close>

datatype command =
    Interface string
  | Port_priority int
  | Fast_switchover
  | Max_bundle int
  | No command

record ReconciliationResult =
  before :: ConfigurationSet
  after :: ConfigurationSet
  commands :: "command list"
  changed :: bool

text \<open>
  Modelled from the spec: the per-attribute delta of the missing engine (section
  4.3, step 3). The delta of one attribute is nothing, a set command with the
  desired value, or a negate command that clears the existing value. Applied to the
  existing value, a set leaves the desired value, a negate leaves the attribute
  absent and nothing leaves what was there.
\<close>

datatype 'a delta = Nothing | Set_to 'a | Clear 'a

record deltas =
  d_port_priority :: "int delta"
  d_fast_switchover :: "bool delta"
  d_max_bundle :: "int delta"

text \<open>
  Modelled from the spec: the set/clear decision of the missing engine for one
  attribute (section 4.3, the policy table and the attribute-level rules). Under
  merged, replaced and overridden: an attribute the desired record does not specify
  is left alone by merged and cleared by replaced and overridden when the existing
  record has it; an attribute the desired record specifies is set unless the
  existing record already has that value. Under deleted the desired value is ignored
  and whatever exists is cleared.
\<close>

definition decide :: "policy \<Rightarrow> 'a option \<Rightarrow> 'a option \<Rightarrow> 'a delta" where
  "decide p desired existing =
     (if p = deleted then (case existing of None \<Rightarrow> Nothing | Some h \<Rightarrow> Clear h)
      else
        (case desired of
           None \<Rightarrow>
             (case existing of
                None \<Rightarrow> Nothing
              | Some h \<Rightarrow> if p = merged then Nothing else Clear h)
         | Some w \<Rightarrow> if existing = Some w then Nothing else Set_to w))"

text \<open>
  Modelled from the spec: the edge case of the missing engine for the presence flag
  (section 4.3). \<open>fast_switchover\<close> is a presence flag: a desired \<open>true\<close> enables
  it, a desired explicit \<open>false\<close> negates it when the existing record has it enabled,
  and emits nothing otherwise.
\<close>

definition decide_fast_switchover :: "policy \<Rightarrow> bool option \<Rightarrow> bool option \<Rightarrow> bool delta" where
  "decide_fast_switchover p desired existing =
     (if p \<noteq> deleted \<and> desired = Some False
      then (if existing = Some True then Clear True else Nothing)
      else decide p desired existing)"

definition interface_deltas :: "policy \<Rightarrow> InterfaceLacpConfig \<Rightarrow> InterfaceLacpConfig \<Rightarrow> deltas" where
  "interface_deltas p desired existing =
     \<lparr>d_port_priority = decide p (port_priority desired) (port_priority existing),
      d_fast_switchover =
        decide_fast_switchover p (fast_switchover desired) (fast_switchover existing),
      d_max_bundle = decide p (max_bundle desired) (max_bundle existing)\<rparr>"

fun delta_commands :: "('a \<Rightarrow> command) \<Rightarrow> 'a delta \<Rightarrow> command list" where
  "delta_commands c Nothing = []"
| "delta_commands c (Set_to w) = [c w]"
| "delta_commands c (Clear h) = [No (c h)]"

fun fast_switchover_commands :: "bool delta \<Rightarrow> command list" where
  "fast_switchover_commands Nothing = []"
| "fast_switchover_commands (Set_to w) = [if w then Fast_switchover else No Fast_switchover]"
| "fast_switchover_commands (Clear h) = [No Fast_switchover]"

text \<open>
  Modelled from the spec: the attribute commands of the missing engine for one
  interface, in the stable order of section 4.3, step 4 (port_priority,
  fast_switchover, max_bundle). The module's documented result of \<open>rendered\<close>
  (EXAMPLES, "Using Rendered") lists \<open>lacp max-bundle 2\<close> before
  \<open>lacp fast-switchover\<close>; nothing that is proved below depends on the order of the
  attribute commands of one interface.
\<close>

definition attribute_commands :: "deltas \<Rightarrow> command list" where
  "attribute_commands d =
     delta_commands Port_priority (d_port_priority d)
     @ fast_switchover_commands (d_fast_switchover d)
     @ delta_commands Max_bundle (d_max_bundle d)"

text \<open>
  Modelled from the spec: the commands of the missing engine for one interface
  (section 4.3, step 4): the command that enters the interface, when there is an
  attribute command at all, and then the attribute commands.
\<close>

definition interface_commands :: "string \<Rightarrow> deltas \<Rightarrow> command list" where
  "interface_commands n d =
     (if attribute_commands d = [] then [] else Interface n # attribute_commands d)"

fun apply_delta :: "'a delta \<Rightarrow> 'a option \<Rightarrow> 'a option" where
  "apply_delta Nothing existing = existing"
| "apply_delta (Set_to w) existing = Some w"
| "apply_delta (Clear h) existing = None"

definition apply_deltas :: "deltas \<Rightarrow> InterfaceLacpConfig \<Rightarrow> InterfaceLacpConfig" where
  "apply_deltas d existing =
     existing
       \<lparr>port_priority := apply_delta (d_port_priority d) (port_priority existing),
        fast_switchover := apply_delta (d_fast_switchover d) (fast_switchover existing),
        max_bundle := apply_delta (d_max_bundle d) (max_bundle existing)\<rparr>"

text \<open>
  Modelled from the spec: the mappings by name of the missing engine (section 4.3,
  step 1), and an interface without attributes.
\<close>

definition by_name :: "ConfigurationSet \<Rightarrow> string \<Rightarrow> InterfaceLacpConfig option" where
  "by_name cs n = find (\<lambda>c. name c = n) cs"

definition unconfigured :: "string \<Rightarrow> InterfaceLacpConfig" where
  "unconfigured n =
     \<lparr>name = n, port_priority = None, fast_switchover = None, max_bundle = None\<rparr>"

definition no_change :: deltas where
  "no_change = \<lparr>d_port_priority = Nothing, d_fast_switchover = Nothing, d_max_bundle = Nothing\<rparr>"

text \<open>
  Modelled from the spec: the partitions and the policy table of the missing engine
  (section 4.3, step 2). The computed deltas have one entry per interface that the
  policy acts on. Merged, replaced and overridden take the desired records in their
  order, each against the existing record of that name, or against an interface
  without attributes when there is none (it is added as new); overridden then clears
  the existing interfaces that the desired set does not name. Deleted with a config clears the existing
  interfaces that the config names (a name that does not exist is not acted on), and
  without a config it clears every existing interface.
\<close>

definition compared_with :: "ConfigurationSet \<Rightarrow> InterfaceLacpConfig \<Rightarrow> InterfaceLacpConfig" where
  "compared_with existing d =
     (case by_name existing (name d) of None \<Rightarrow> unconfigured (name d) | Some e \<Rightarrow> e)"

definition existing_only :: "ConfigurationSet \<Rightarrow> ConfigurationSet \<Rightarrow> ConfigurationSet" where
  "existing_only desired existing = filter (\<lambda>e. by_name desired (name e) = None) existing"

definition computed_deltas ::
  "policy \<Rightarrow> ConfigurationSet \<Rightarrow> ConfigurationSet \<Rightarrow> (string \<times> deltas) list"
where
  "computed_deltas p desired existing =
     (if p = deleted then
        (if desired = [] then map (\<lambda>e. (name e, interface_deltas deleted e e)) existing
         else
           concat (map (\<lambda>d. case by_name existing (name d) of
                               None \<Rightarrow> []
                             | Some e \<Rightarrow> [(name e, interface_deltas deleted d e)]) desired))
      else
        map (\<lambda>d. (name d, interface_deltas p d (compared_with existing d))) desired
        @ (if p = overridden
           then map (\<lambda>e. (name e, interface_deltas deleted e e)) (existing_only desired existing)
           else []))"

definition plan_commands :: "(string \<times> deltas) list \<Rightarrow> command list" where
  "plan_commands pl = concat (map (\<lambda>(n, d). interface_commands n d) pl)"

definition delta_for :: "(string \<times> deltas) list \<Rightarrow> string \<Rightarrow> deltas" where
  "delta_for pl n = (case map_of pl n of None \<Rightarrow> no_change | Some d \<Rightarrow> d)"

text \<open>
  Modelled from the spec: the after state and the result of the missing engine
  (section 4.3, step 5): every existing record with the deltas of its name applied,
  then a new record for every entry whose name does not exist.
\<close>

definition apply_plan :: "(string \<times> deltas) list \<Rightarrow> ConfigurationSet \<Rightarrow> ConfigurationSet" where
  "apply_plan pl existing =
     map (\<lambda>e. apply_deltas (delta_for pl (name e)) e) existing
     @ map (\<lambda>(n, d). apply_deltas d (unconfigured n))
         (filter (\<lambda>(n, d). by_name existing n = None) pl)"

definition reconcile ::
  "ConfigurationSet \<Rightarrow> ConfigurationSet \<Rightarrow> policy \<Rightarrow> ReconciliationResult"
where
  "reconcile desired existing p =
     \<lparr>before = existing,
      after = apply_plan (computed_deltas p desired existing) existing,
      commands = plan_commands (computed_deltas p desired existing),
      changed = (plan_commands (computed_deltas p desired existing) \<noteq> [])\<rparr>"

text \<open>
  Modelled from the spec: the invariant of a ConfigurationSet (section 3), no two
  records of one name.
\<close>

definition configuration_set :: "ConfigurationSet \<Rightarrow> bool" where
  "configuration_set cs = distinct (map name cs)"

subsection \<open>Reading a command list\<close>

text \<open>
  \<open>commands_for n ctx cs\<close> are the attribute commands of \<open>cs\<close> that stand in the
  context of interface \<open>n\<close>.
\<close>

fun commands_for :: "string \<Rightarrow> string option \<Rightarrow> command list \<Rightarrow> command list" where
  "commands_for n ctx [] = []"
| "commands_for n ctx (c # cs) =
     (case c of
        Interface m \<Rightarrow> commands_for n (Some m) cs
      | _ \<Rightarrow> (if ctx = Some n then c # commands_for n ctx cs else commands_for n ctx cs))"



subsection \<open>The documented examples\<close>

text \<open>
  The before states, the \<open>config\<close> of the tasks and the after states of the examples
  "Using overridden", "Using replaced" and "Using Deleted" of the module's EXAMPLES;
  \<open>lacp\<close> writes one record. A before or after state lists the interfaces of the
  device in the order of the documented \<open>show running-config\<close>.
\<close>

definition lacp :: "string \<Rightarrow> int option \<Rightarrow> bool option \<Rightarrow> int option \<Rightarrow> InterfaceLacpConfig" where
  "lacp n pp fs mb = \<lparr>name = n, port_priority = pp, fast_switchover = fs, max_bundle = mb\<rparr>"

definition overridden_before :: ConfigurationSet where
  "overridden_before =
     [lacp ''Port-channel10'' None (Some True) None,
      lacp ''Port-channel20'' None None None,
      lacp ''Port-channel30'' None None None,
      lacp ''GigabitEthernet0/1'' (Some 10) None None,
      lacp ''GigabitEthernet0/2'' (Some 20) None None,
      lacp ''GigabitEthernet0/3'' (Some 30) None None]"

definition overridden_config :: ConfigurationSet where
  "overridden_config =
     [lacp ''GigabitEthernet0/1'' (Some 20) None None,
      lacp ''Port-channel10'' None None (Some 2)]"

definition overridden_after :: ConfigurationSet where
  "overridden_after =
     [lacp ''Port-channel10'' None None (Some 2),
      lacp ''Port-channel20'' None None None,
      lacp ''Port-channel30'' None None None,
      lacp ''GigabitEthernet0/1'' (Some 20) None None,
      lacp ''GigabitEthernet0/2'' None None None,
      lacp ''GigabitEthernet0/3'' None None None]"

definition deleted_before :: ConfigurationSet where
  "deleted_before =
     [lacp ''Port-channel10'' None None None,
      lacp ''Port-channel20'' None None None,
      lacp ''Port-channel30'' None None None,
      lacp ''GigabitEthernet0/1'' (Some 10) None None,
      lacp ''GigabitEthernet0/2'' (Some 20) None None,
      lacp ''GigabitEthernet0/3'' (Some 30) None None]"

definition deleted_config :: ConfigurationSet where
  "deleted_config = [lacp ''GigabitEthernet0/1'' None None None]"

definition deleted_after :: ConfigurationSet where
  "deleted_after =
     [lacp ''Port-channel10'' None None None,
      lacp ''Port-channel20'' None None None,
      lacp ''Port-channel30'' None None None,
      lacp ''GigabitEthernet0/1'' None None None,
      lacp ''GigabitEthernet0/2'' (Some 20) None None,
      lacp ''GigabitEthernet0/3'' (Some 30) None None]"

definition replaced_before :: ConfigurationSet where
  "replaced_before =
     [lacp ''Port-channel10'' None None (Some 5),
      lacp ''Port-channel20'' None None None,
      lacp ''Port-channel30'' None None None,
      lacp ''GigabitEthernet0/1'' (Some 10) None None,
      lacp ''GigabitEthernet0/2'' (Some 20) None None,
      lacp ''GigabitEthernet0/3'' (Some 30) None None]"

definition replaced_config :: ConfigurationSet where
  "replaced_config =
     [lacp ''GigabitEthernet0/3'' (Some 40) None None,
      lacp ''Port-channel10'' None (Some True) (Some 2)]"

definition replaced_after :: ConfigurationSet where
  "replaced_after =
     [lacp ''Port-channel10'' None (Some True) (Some 2),
      lacp ''Port-channel20'' None None None,
      lacp ''Port-channel30'' None None None,
      lacp ''GigabitEthernet0/1'' (Some 10) None None,
      lacp ''GigabitEthernet0/2'' (Some 20) None None,
      lacp ''GigabitEthernet0/3'' (Some 40) None None]"

section \<open>Properties of the validation\<close>

lemma check_mutually_exclusive_main:
  "check_mutually_exclusive mutually_exclusive p =
     (if config p \<noteq> None \<and> running_config p \<noteq> None
      then Some (Mutually_exclusive [Config, Running_config]) else None)"
  by (simp add: mutually_exclusive_def)

lemma check_required_if_main:
  "check_required_if required_if p =
     (if state p \<in> {Some Merged, Some Replaced, Some Overridden, Some Rendered} \<and> config p = None
      then Some (Required_if_missing (the (state p)) [Config])
      else if state p = Some Parsed \<and> running_config p = None
      then Some (Required_if_missing Parsed [Running_config])
      else None)"
  by (auto simp: required_if_def)

lemma main_eq:
  "main ex p =
     (if config p \<noteq> None \<and> running_config p \<noteq> None
      then Inl (Mutually_exclusive [Config, Running_config])
      else if state (set_defaults p) \<in> {Some Merged, Some Replaced, Some Overridden, Some Rendered}
              \<and> config p = None
      then Inl (Required_if_missing (the (state (set_defaults p))) [Config])
      else if state (set_defaults p) = Some Parsed \<and> running_config p = None
      then Inl (Required_if_missing Parsed [Running_config])
      else Inr (ex (set_defaults p)))"
proof -
  have c: "config (set_defaults p) = config p"
    and r: "running_config (set_defaults p) = running_config p"
    by (simp_all add: set_defaults_def split: option.splits)
  show ?thesis
    unfolding main_def AnsibleModule_def check_mutually_exclusive_main
      check_required_if_main c r
    by simp
qed

text \<open>
  C2. An invocation fails in the validation, with the same error whatever
  \<open>execute_module\<close> is (it is never reached): with \<open>state\<close> one of merged, replaced, overridden or rendered and
  no \<open>config\<close>; with \<open>state\<close> parsed and no \<open>running_config\<close>; and whenever
  \<open>config\<close> and \<open>running_config\<close> are both supplied.
\<close>

theorem validation_fails_before_engine:
  "(state p = Some s \<and> s \<in> {Merged, Replaced, Overridden, Rendered} \<and> config p = None
      \<longrightarrow> main ex p = Inl (Required_if_missing s [Config]))
   \<and> (state p = Some Parsed \<and> running_config p = None
      \<longrightarrow> main ex p = Inl (Required_if_missing Parsed [Running_config]))
   \<and> (config p \<noteq> None \<and> running_config p \<noteq> None
      \<longrightarrow> main ex p = Inl (Mutually_exclusive [Config, Running_config]))"
  by (auto simp: main_eq set_defaults_def)

theorem validation_fails_before_engine_witness:
  "main (\<lambda>m. True) \<lparr>config = None, running_config = None, state = Some Replaced\<rparr>
     = Inl (Required_if_missing Replaced [Config])
   \<and> main (\<lambda>m. True) \<lparr>config = Some [], running_config = None, state = Some Parsed\<rparr>
     = Inl (Required_if_missing Parsed [Running_config])
   \<and> main (\<lambda>m. True) \<lparr>config = Some [], running_config = Some ''interface Port-channel10'',
        state = Some Deleted\<rparr>
     = Inl (Mutually_exclusive [Config, Running_config])"
  using
    validation_fails_before_engine
      [of "\<lparr>config = None, running_config = None, state = Some Replaced\<rparr>" Replaced
          "\<lambda>m. True"]
    validation_fails_before_engine
      [of "\<lparr>config = Some [], running_config = None, state = Some Parsed\<rparr>" Parsed
          "\<lambda>m. True"]
    validation_fails_before_engine
      [of "\<lparr>config = Some [], running_config = Some ''interface Port-channel10'',
            state = Some Deleted\<rparr>" Deleted "\<lambda>m. True"]
  by simp

text \<open>
  C9. An invocation without \<open>state\<close> behaves as the same invocation with
  \<open>state = merged\<close>; so one with neither \<open>state\<close> nor \<open>config\<close> fails the validation,
  because merged requires \<open>config\<close>.
\<close>

theorem state_defaults_to_merged:
  "main ex (p\<lparr>state := None\<rparr>) = main ex (p\<lparr>state := Some Merged\<rparr>)
   \<and> (state p = None \<and> config p = None
        \<longrightarrow> main ex p = Inl (Required_if_missing Merged [Config]))"
  by (auto simp: main_eq set_defaults_def state_default_def)

theorem state_defaults_to_merged_witness:
  "main (\<lambda>m. state m) \<lparr>config = Some [], running_config = None, state = None\<rparr>
     = main (\<lambda>m. state m) \<lparr>config = Some [], running_config = None, state = Some Merged\<rparr>
   \<and> main (\<lambda>m. state m) \<lparr>config = None, running_config = None, state = None\<rparr>
     = Inl (Required_if_missing Merged [Config])"
  using
    state_defaults_to_merged
      [of "\<lambda>m. state m" "\<lparr>config = Some [], running_config = None, state = None\<rparr>"]
    state_defaults_to_merged
      [of "\<lambda>m. state m" "\<lparr>config = None, running_config = None, state = None\<rparr>"]
  by auto

text \<open>
  C10. With \<open>state\<close> deleted or gathered no option is required: the invocation
  passes the validation unless \<open>config\<close> and \<open>running_config\<close> are both supplied, so
  \<open>running_config\<close> alone is accepted there. For every state but parsed, an
  invocation without \<open>config\<close> fails with \<open>running_config\<close> exactly when it fails
  without it: \<open>running_config\<close> is rejected only together with \<open>config\<close>.
\<close>

theorem running_config_not_rejected_alone:
  "(state p = Some s \<and> s \<in> {Deleted, Gathered}
      \<longrightarrow> main ex p =
            (if config p \<noteq> None \<and> running_config p \<noteq> None
             then Inl (Mutually_exclusive [Config, Running_config]) else Inr (ex p)))
   \<and> (state p = Some s \<and> s \<in> {Deleted, Gathered} \<and> config p = None
      \<longrightarrow> main ex p = Inr (ex p))
   \<and> (state p \<noteq> Some Parsed \<and> config p = None
      \<longrightarrow> (\<forall>e. main ex p = Inl e \<longleftrightarrow> main ex (p\<lparr>running_config := None\<rparr>) = Inl e))
   \<and> ((\<exists>g. main ex p = Inl (Mutually_exclusive g))
        \<longleftrightarrow> config p \<noteq> None \<and> running_config p \<noteq> None)"
  by (auto simp: main_eq set_defaults_def state_default_def split: option.splits)

theorem running_config_not_rejected_alone_witness:
  "main (\<lambda>m. running_config m)
      \<lparr>config = None, running_config = Some ''interface Port-channel10'', state = Some Deleted\<rparr>
     = Inr (Some ''interface Port-channel10'')
   \<and> main (\<lambda>m. running_config m)
      \<lparr>config = None, running_config = Some ''interface Port-channel10'', state = Some Gathered\<rparr>
     = Inr (Some ''interface Port-channel10'')"
  using
    running_config_not_rejected_alone
      [of "\<lparr>config = None, running_config = Some ''interface Port-channel10'',
            state = Some Deleted\<rparr>" Deleted "\<lambda>m. running_config m"]
    running_config_not_rejected_alone
      [of "\<lparr>config = None, running_config = Some ''interface Port-channel10'',
            state = Some Gathered\<rparr>" Gathered "\<lambda>m. running_config m"]
  by simp

section \<open>Properties of the reconciliation engine\<close>

subsection \<open>Looking up records and deltas by name\<close>

lemma by_name_Nil [simp]: "by_name [] n = None"
  by (simp add: by_name_def)

lemma by_name_Cons [simp]: "by_name (c # cs) n = (if name c = n then Some c else by_name cs n)"
  by (simp add: by_name_def)

lemma by_name_append:
  "by_name (xs @ ys) n = (case by_name xs n of None \<Rightarrow> by_name ys n | Some x \<Rightarrow> Some x)"
  by (induction xs) auto

lemma by_name_None_iff: "by_name cs n = None \<longleftrightarrow> n \<notin> name ` set cs"
  by (induction cs) auto

lemma by_name_SomeD: "by_name cs n = Some c \<Longrightarrow> name c = n \<and> c \<in> set cs"
  by (induction cs) (auto split: if_splits)

lemma by_name_distinct:
  "distinct (map name cs) \<Longrightarrow> c \<in> set cs \<Longrightarrow> by_name cs (name c) = Some c"
  by (induction cs) auto

lemma by_name_map:
  "(\<And>c. name (f c) = name c) \<Longrightarrow> by_name (map f cs) n = map_option f (by_name cs n)"
  by (induction cs) auto

lemma by_name_filter:
  "by_name (filter (\<lambda>c. Q (name c)) cs) n = (if Q n then by_name cs n else None)"
  by (induction cs) auto

lemma name_apply_deltas [simp]: "name (apply_deltas d e) = name e"
  by (simp add: apply_deltas_def)

lemma name_unconfigured [simp]: "name (unconfigured n) = n"
  by (simp add: unconfigured_def)

lemma map_of_named:
  "map_of (map (\<lambda>c. (name c, g c)) cs) n = map_option g (by_name cs n)"
  by (induction cs) auto

lemma interface_deltas_deleted:
  "interface_deltas deleted d e = interface_deltas deleted e e"
  by (simp add: interface_deltas_def decide_def decide_fast_switchover_def)

lemma map_of_selected:
  "map_of (concat (map (\<lambda>d. case by_name es (name d) of
                               None \<Rightarrow> []
                             | Some e \<Rightarrow> [(name e, interface_deltas deleted d e)]) ds)) n
   = (if by_name ds n = None then None
      else map_option (\<lambda>e. interface_deltas deleted e e) (by_name es n))"
proof (induction ds)
  case Nil
  then show ?case by simp
next
  case (Cons d ds)
  show ?case
  proof (cases "by_name es (name d)")
    case None
    with Cons show ?thesis by auto
  next
    case (Some e)
    then have "name e = name d" by (simp add: by_name_SomeD)
    with Some Cons show ?thesis
      by (auto simp: interface_deltas_deleted [of d e])
  qed
qed

lemma map_of_computed_deltas:
  "map_of (computed_deltas p ds es) n =
     (if p = deleted then
        (if ds = [] \<or> by_name ds n \<noteq> None
         then map_option (\<lambda>e. interface_deltas deleted e e) (by_name es n) else None)
      else
        (case by_name ds n of
           Some d \<Rightarrow> Some (interface_deltas p d (compared_with es d))
         | None \<Rightarrow>
             if p = overridden
             then map_option (\<lambda>e. interface_deltas deleted e e) (by_name es n) else None))"
proof (cases "p = deleted")
  case True
  then show ?thesis
    by (simp add: computed_deltas_def map_of_named map_of_selected)
next
  case False
  have ex: "by_name (existing_only ds es) n = (if by_name ds n = None then by_name es n else None)"
    unfolding existing_only_def by (rule by_name_filter)
  from False show ?thesis
    by (auto simp: computed_deltas_def map_of_named map_of_append map_add_def ex
        split: option.splits)
qed

lemma by_name_new_records:
  "by_name (map (\<lambda>(n, d). apply_deltas d (unconfigured n))
              (filter (\<lambda>(n, d). Q n) pl)) n
   = (if Q n then map_option (\<lambda>d. apply_deltas d (unconfigured n)) (map_of pl n) else None)"
  by (induction pl) auto

lemma by_name_apply_plan:
  "by_name (apply_plan pl es) n =
     (case by_name es n of
        Some e \<Rightarrow> Some (apply_deltas (delta_for pl n) e)
      | None \<Rightarrow> map_option (\<lambda>d. apply_deltas d (unconfigured n)) (map_of pl n))"
proof -
  have 1: "by_name (map (\<lambda>e. apply_deltas (delta_for pl (name e)) e) es) n
           = map_option (apply_deltas (delta_for pl n)) (by_name es n)"
    by (induction es) auto
  show ?thesis
    unfolding apply_plan_def by_name_append 1 by_name_new_records
    by (simp split: option.splits)
qed


lemma decide_settled:
  "p \<noteq> deleted \<Longrightarrow> decide p w (apply_delta (decide p w h) h) = Nothing"
  by (cases w; cases h) (auto simp: decide_def)

lemma decide_fast_switchover_settled:
  "p \<noteq> deleted \<Longrightarrow>
   decide_fast_switchover p w (apply_delta (decide_fast_switchover p w h) h) = Nothing"
  by (cases w; cases h) (auto simp: decide_def decide_fast_switchover_def)

lemma interface_deltas_settled:
  "p \<noteq> deleted \<Longrightarrow> interface_deltas p d (apply_deltas (interface_deltas p d c) c) = no_change"
  by (simp add: interface_deltas_def apply_deltas_def no_change_def decide_settled
      decide_fast_switchover_settled)

lemma decide_deleted_settled:
  "decide deleted w (apply_delta (decide deleted v h) h) = Nothing"
  by (cases h) (auto simp: decide_def)

lemma cleared_settled:
  "interface_deltas deleted x (apply_deltas (interface_deltas deleted e e) e) = no_change"
  by (simp add: interface_deltas_def apply_deltas_def no_change_def decide_deleted_settled
      decide_fast_switchover_def)

lemma interface_commands_no_change [simp]: "interface_commands n no_change = []"
  by (simp add: interface_commands_def attribute_commands_def no_change_def)

lemma plan_commands_no_change:
  "\<forall>x \<in> set pl. snd x = no_change \<Longrightarrow> plan_commands pl = []"
  by (induction pl) (auto simp: plan_commands_def)

lemma delta_for_desired:
  assumes "distinct (map name ds)" "d \<in> set ds" "p \<noteq> deleted"
  shows "delta_for (computed_deltas p ds es) (name d) = interface_deltas p d (compared_with es d)"
  using assms by (simp add: delta_for_def map_of_computed_deltas by_name_distinct)

lemma compared_with_after:
  assumes "distinct (map name ds)" "d \<in> set ds" "p \<noteq> deleted"
  shows "compared_with (apply_plan (computed_deltas p ds es) es) d
         = apply_deltas (interface_deltas p d (compared_with es d)) (compared_with es d)"
proof (cases "by_name es (name d)")
  case None
  with assms show ?thesis
    by (simp add: compared_with_def by_name_apply_plan map_of_computed_deltas by_name_distinct)
next
  case (Some e)
  with assms show ?thesis
    by (simp add: compared_with_def by_name_apply_plan delta_for_desired)
qed

lemma existing_only_after:
  assumes "distinct (map name es)"
    and "a \<in> set (existing_only ds (apply_plan (computed_deltas overridden ds es) es))"
  shows "interface_deltas deleted a a = no_change"
proof -
  let ?pl = "computed_deltas overridden ds es"
  from assms(2) have a: "a \<in> set (apply_plan ?pl es)" and nd: "by_name ds (name a) = None"
    by (auto simp: existing_only_def)
  from a consider
    (old) e where "e \<in> set es" "a = apply_deltas (delta_for ?pl (name e)) e"
  | (new) n d where "(n, d) \<in> set ?pl" "by_name es n = None" "a = apply_deltas d (unconfigured n)"
    by (auto simp: apply_plan_def)
  then show ?thesis
  proof cases
    case old
    with nd assms(1) have "delta_for ?pl (name e) = interface_deltas deleted e e"
      by (simp add: delta_for_def map_of_computed_deltas by_name_distinct)
    with old show ?thesis by (simp add: cleared_settled)
  next
    case new
    from new(1) have "map_of ?pl n \<noteq> None"
      by (metis map_of_eq_None_iff fst_conv image_eqI)
    with new nd show ?thesis
      by (simp add: map_of_computed_deltas)
  qed
qed

text \<open>
  C1. Idempotence: for configuration sets \<open>D\<close> and \<open>E\<close> (no two records of one
  name) and a policy among merged, replaced and overridden, reconciling \<open>D\<close> again
  against the after state of a first reconciliation emits no command and reports no
  change.
\<close>

theorem reconcile_idempotent:
  assumes "configuration_set D" and "configuration_set E" and "p \<noteq> deleted"
  shows "commands (reconcile D (after (reconcile D E p)) p) = []
         \<and> changed (reconcile D (after (reconcile D E p)) p) = False"
proof -
  let ?A = "apply_plan (computed_deltas p D E) E"
  have "\<forall>x \<in> set (computed_deltas p D ?A). snd x = no_change"
  proof
    fix x assume "x \<in> set (computed_deltas p D ?A)"
    with assms(3) consider
      (desired) d where "d \<in> set D" "x = (name d, interface_deltas p d (compared_with ?A d))"
    | (only) a where "p = overridden" "a \<in> set (existing_only D ?A)"
        "x = (name a, interface_deltas deleted a a)"
      by (auto simp: computed_deltas_def split: if_splits)
    then show "snd x = no_change"
    proof cases
      case desired
      with assms show ?thesis
        by (simp add: configuration_set_def compared_with_after interface_deltas_settled)
    next
      case only
      with assms(2) show ?thesis
        by (simp add: configuration_set_def existing_only_after)
    qed
  qed
  then have "plan_commands (computed_deltas p D ?A) = []"
    by (rule plan_commands_no_change)
  then show ?thesis by (simp add: reconcile_def)
qed

theorem reconcile_idempotent_witness:
  "commands
     (reconcile
        [\<lparr>name = ''Port-channel10'', port_priority = None, fast_switchover = Some True,
          max_bundle = Some 2\<rparr>,
         \<lparr>name = ''GigabitEthernet0/3'', port_priority = Some 40, fast_switchover = None,
          max_bundle = None\<rparr>]
        (after
           (reconcile
              [\<lparr>name = ''Port-channel10'', port_priority = None, fast_switchover = Some True,
                max_bundle = Some 2\<rparr>,
               \<lparr>name = ''GigabitEthernet0/3'', port_priority = Some 40, fast_switchover = None,
                max_bundle = None\<rparr>]
              [\<lparr>name = ''Port-channel10'', port_priority = None, fast_switchover = None,
                max_bundle = Some 5\<rparr>,
               \<lparr>name = ''GigabitEthernet0/1'', port_priority = Some 10, fast_switchover = None,
                max_bundle = None\<rparr>]
              overridden))
        overridden) = []"
  using reconcile_idempotent
    [of "[\<lparr>name = ''Port-channel10'', port_priority = None, fast_switchover = Some True,
            max_bundle = Some 2\<rparr>,
          \<lparr>name = ''GigabitEthernet0/3'', port_priority = Some 40, fast_switchover = None,
            max_bundle = None\<rparr>]"
        "[\<lparr>name = ''Port-channel10'', port_priority = None, fast_switchover = None,
            max_bundle = Some 5\<rparr>,
          \<lparr>name = ''GigabitEthernet0/1'', port_priority = Some 10, fast_switchover = None,
            max_bundle = None\<rparr>]"
        overridden]
  by (simp add: configuration_set_def)

subsection \<open>The documented examples\<close>

text \<open>
  The engine reproduces the after states that the module documents for its examples.
\<close>

lemma documented_after_states:
  "after (reconcile overridden_config overridden_before overridden) = overridden_after"
  "after (reconcile deleted_config deleted_before deleted) = deleted_after"
  "after (reconcile replaced_config replaced_before replaced) = replaced_after"
  by code_simp+

lemma name_lacp [simp]: "name (lacp n pp fs mb) = n"
  by (simp add: lacp_def)

subsection \<open>The commands of one interface\<close>

lemma commands_for_attribute:
  "(\<And>m. c \<noteq> Interface m) \<Longrightarrow>
   commands_for n ctx (c # cs) =
     (if ctx = Some n then c # commands_for n ctx cs else commands_for n ctx cs)"
  by (cases c) auto

lemma commands_for_attributes:
  "(\<And>c m. c \<in> set xs \<Longrightarrow> c \<noteq> Interface m) \<Longrightarrow>
   commands_for n ctx (xs @ rest) = (if ctx = Some n then xs else []) @ commands_for n ctx rest"
proof (induction xs)
  case Nil
  then show ?case by simp
next
  case (Cons x xs)
  then have "\<And>m. x \<noteq> Interface m" by simp
  with Cons show ?case
    by (auto simp add: commands_for_attribute simp del: commands_for.simps)
qed

lemma attribute_commands_not_Interface:
  "c \<in> set (attribute_commands d) \<Longrightarrow> c \<noteq> Interface m"
proof -
  obtain x y z where d: "d = \<lparr>d_port_priority = x, d_fast_switchover = y, d_max_bundle = z\<rparr>"
    by (cases d) auto
  show "c \<in> set (attribute_commands d) \<Longrightarrow> c \<noteq> Interface m"
    unfolding d attribute_commands_def
    by (cases x; cases y; cases z) (auto split: if_splits)
qed

lemma commands_for_plan_commands:
  "commands_for n ctx (plan_commands pl)
   = concat (map (\<lambda>(m, d). attribute_commands d) (filter (\<lambda>(m, d). m = n) pl))"
proof (induction pl arbitrary: ctx)
  case Nil
  then show ?case by (simp add: plan_commands_def)
next
  case (Cons a pl)
  obtain m d where a: "a = (m, d)" by (cases a)
  have split: "plan_commands (a # pl) = interface_commands m d @ plan_commands pl"
    by (simp add: plan_commands_def a)
  show ?case
  proof (cases "attribute_commands d = []")
    case True
    then have "plan_commands (a # pl) = plan_commands pl"
      by (simp add: split interface_commands_def)
    with True Cons show ?thesis by (simp add: a)
  next
    case False
    have "commands_for n (Some m) (attribute_commands d @ plan_commands pl)
          = (if Some m = Some n then attribute_commands d else [])
            @ commands_for n (Some m) (plan_commands pl)"
      by (rule commands_for_attributes) (rule attribute_commands_not_Interface)
    moreover from False
    have "plan_commands (a # pl) = Interface m # attribute_commands d @ plan_commands pl"
      by (simp add: split interface_commands_def)
    ultimately show ?thesis using Cons
      by (simp add: a)
  qed
qed

lemma attribute_commands_no_change [simp]: "attribute_commands no_change = []"
  by (simp add: attribute_commands_def no_change_def)

lemma commands_named:
  "distinct (map fst pl) \<Longrightarrow>
   concat (map (\<lambda>(m, d). attribute_commands d) (filter (\<lambda>(m, d). m = n) pl))
   = attribute_commands (delta_for pl n)"
proof (induction pl)
  case Nil
  then show ?case by (simp add: delta_for_def)
next
  case (Cons a pl)
  obtain m d where a: "a = (m, d)" by (cases a)
  show ?case
  proof (cases "m = n")
    case True
    with Cons.prems a have "filter (\<lambda>(m, d). m = n) pl = []"
      by (force simp: filter_empty_conv)
    with True show ?thesis by (simp add: a delta_for_def)
  next
    case False
    with Cons show ?thesis by (simp add: a delta_for_def)
  qed
qed

lemma names_selected:
  "map fst (concat (map (\<lambda>d. case by_name es (name d) of
                               None \<Rightarrow> []
                             | Some e \<Rightarrow> [(name e, g d e)]) ds))
   = map name (filter (\<lambda>d. by_name es (name d) \<noteq> None) ds)"
  by (induction ds) (auto dest: by_name_SomeD)

lemma names_computed_deltas:
  "map fst (computed_deltas p D E) =
     (if p = deleted then
        (if D = [] then map name E
         else map name (filter (\<lambda>d. by_name E (name d) \<noteq> None) D))
      else map name D @ (if p = overridden then map name (existing_only D E) else []))"
  by (simp add: computed_deltas_def names_selected comp_def)

lemma distinct_computed_deltas:
  assumes "configuration_set D" and "configuration_set E"
  shows "distinct (map fst (computed_deltas p D E))"
proof -
  have "name e \<notin> name ` set D" if "e \<in> set (existing_only D E)" for e
    using that by (simp add: existing_only_def by_name_None_iff)
  then have "name ` set D \<inter> name ` set (existing_only D E) = {}"
    using image_iff by fastforce
  with assms show ?thesis
    unfolding names_computed_deltas
    by (simp add: configuration_set_def distinct_map_filter existing_only_def)
qed

lemma commands_for_reconcile:
  assumes "configuration_set D" and "configuration_set E"
  shows "commands_for n ctx (commands (reconcile D E p))
         = attribute_commands (delta_for (computed_deltas p D E) n)"
  using assms
  by (simp add: reconcile_def commands_for_plan_commands commands_named distinct_computed_deltas)

lemma by_name_after:
  "by_name (after (reconcile D E p)) n =
     (case by_name E n of
        Some e \<Rightarrow> Some (apply_deltas (delta_for (computed_deltas p D E) n) e)
      | None \<Rightarrow>
          map_option (\<lambda>d. apply_deltas d (unconfigured n)) (map_of (computed_deltas p D E) n))"
  by (simp add: reconcile_def by_name_apply_plan)

lemma compared_with_existing:
  "distinct (map name es) \<Longrightarrow> e \<in> set es \<Longrightarrow> name d = name e \<Longrightarrow> compared_with es d = e"
  by (simp add: compared_with_def by_name_distinct)

text \<open>
  C4. Under merged, for configuration sets \<open>D\<close> and \<open>E\<close> and records \<open>d\<close> of \<open>D\<close>
  and \<open>e\<close> of \<open>E\<close> of one name: the interface has a record in the after state, and
  every attribute that \<open>d\<close> does not specify has there the value it has in \<open>e\<close>; no
  negate command of that attribute stands among the commands of that interface.
\<close>

theorem merged_never_removes:
  assumes "configuration_set D" and "configuration_set E"
    and "d \<in> set D" and "e \<in> set E" and "name d = name e"
  shows "\<exists>a. by_name (after (reconcile D E merged)) (name e) = Some a
     \<and> (port_priority d = None \<longrightarrow>
          port_priority a = port_priority e
          \<and> (\<forall>v. No (Port_priority v)
                 \<notin> set (commands_for (name e) None (commands (reconcile D E merged)))))
     \<and> (fast_switchover d = None \<longrightarrow>
          fast_switchover a = fast_switchover e
          \<and> No Fast_switchover
               \<notin> set (commands_for (name e) None (commands (reconcile D E merged))))
     \<and> (max_bundle d = None \<longrightarrow>
          max_bundle a = max_bundle e
          \<and> (\<forall>v. No (Max_bundle v)
                 \<notin> set (commands_for (name e) None (commands (reconcile D E merged)))))"
proof -
  let ?ds = "interface_deltas merged d e"
  from assms have delta: "delta_for (computed_deltas merged D E) (name e) = ?ds"
    using delta_for_desired [of D d merged E]
    by (simp add: configuration_set_def compared_with_existing)
  from assms have a: "by_name (after (reconcile D E merged)) (name e) = Some (apply_deltas ?ds e)"
    by (simp add: by_name_after delta configuration_set_def by_name_distinct)
  have c: "commands_for (name e) None (commands (reconcile D E merged)) = attribute_commands ?ds"
    using assms by (simp add: commands_for_reconcile delta)
  have pp: "port_priority d = None \<Longrightarrow> d_port_priority ?ds = Nothing"
    and fs: "fast_switchover d = None \<Longrightarrow> d_fast_switchover ?ds = Nothing"
    and mb: "max_bundle d = None \<Longrightarrow> d_max_bundle ?ds = Nothing"
    by (auto simp: interface_deltas_def decide_def decide_fast_switchover_def split: option.splits)
  have no_pp: "d_port_priority x = Nothing \<Longrightarrow> No (Port_priority v) \<notin> set (attribute_commands x)"
    for x v
    by (cases "d_max_bundle x"; cases "d_fast_switchover x") (auto simp: attribute_commands_def)
  have no_mb: "d_max_bundle x = Nothing \<Longrightarrow> No (Max_bundle v) \<notin> set (attribute_commands x)"
    for x v
    by (cases "d_port_priority x"; cases "d_fast_switchover x") (auto simp: attribute_commands_def)
  have no_fs: "d_fast_switchover x = Nothing \<Longrightarrow> No Fast_switchover \<notin> set (attribute_commands x)"
    for x
    by (cases "d_port_priority x"; cases "d_max_bundle x") (auto simp: attribute_commands_def)
  show ?thesis
    unfolding a c
    by (simp add: apply_deltas_def pp fs mb no_pp no_mb no_fs)
qed

theorem merged_never_removes_witness:
  "\<exists>a. by_name
         (after (reconcile [lacp ''Port-channel10'' None (Some True) None] replaced_before merged))
         ''Port-channel10'' = Some a
       \<and> port_priority a = None \<and> max_bundle a = Some 5"
proof -
  let ?d = "lacp ''Port-channel10'' None (Some True) None"
  let ?e = "lacp ''Port-channel10'' None None (Some 5)"
  have "configuration_set [?d]" and "configuration_set replaced_before"
    and "?d \<in> set [?d]" and "?e \<in> set replaced_before" and "name ?d = name ?e"
    by (simp_all add: configuration_set_def replaced_before_def)
  from merged_never_removes [OF this]
  show ?thesis by (auto simp: lacp_def)
qed

lemma cleared_is_unconfigured:
  "apply_deltas (interface_deltas deleted x e) e = unconfigured (name e)"
  by (cases e)
    (auto simp: apply_deltas_def interface_deltas_def decide_def decide_fast_switchover_def
      unconfigured_def split: option.splits)

subsection \<open>Deleted\<close>

lemma selected_ignores_values:
  "concat (map (\<lambda>d. case by_name E (name d) of
                       None \<Rightarrow> []
                     | Some e \<Rightarrow> [(name e, interface_deltas deleted (f d) e)]) D)
   = concat (map (\<lambda>d. case by_name E (name d) of
                       None \<Rightarrow> []
                     | Some e \<Rightarrow> [(name e, interface_deltas deleted e e)]) D)"
proof (induction D)
  case Nil
  then show ?case by simp
next
  case (Cons d D)
  then show ?case
    by (cases "by_name E (name d)") (simp_all add: interface_deltas_deleted [of "f d"])
qed

lemma computed_deltas_deleted_names:
  "computed_deltas deleted (map (\<lambda>d. unconfigured (name d)) D) E = computed_deltas deleted D E"
  using selected_ignores_values [where E = E and D = D and f = "\<lambda>d. d"]
    selected_ignores_values [where E = E and D = D and f = "\<lambda>d. unconfigured (name d)"]
  by (simp add: computed_deltas_def comp_def)

lemma apply_no_change [simp]: "apply_deltas no_change e = e"
  by (simp add: apply_deltas_def no_change_def)


lemma negate_command_emitted:
  "No (Port_priority h) \<in> set (attribute_commands x) \<longleftrightarrow> d_port_priority x = Clear h"
  "No (Max_bundle h) \<in> set (attribute_commands x) \<longleftrightarrow> d_max_bundle x = Clear h"
  "No Fast_switchover \<in> set (attribute_commands x)
     \<longleftrightarrow> d_fast_switchover x = Set_to False \<or> (\<exists>h. d_fast_switchover x = Clear h)"
  by (cases "d_port_priority x"; cases "d_fast_switchover x"; cases "d_max_bundle x";
      auto simp: attribute_commands_def)+

lemma distinct_attribute_commands: "distinct (attribute_commands x)"
  by (cases "d_port_priority x"; cases "d_fast_switchover x"; cases "d_max_bundle x")
    (auto simp: attribute_commands_def)

lemma Interface_in_plan_commands:
  "Interface n \<in> set (plan_commands pl) \<longleftrightarrow> (\<exists>d. (n, d) \<in> set pl \<and> attribute_commands d \<noteq> [])"
proof (induction pl)
  case Nil
  then show ?case by (simp add: plan_commands_def)
next
  case (Cons a pl)
  obtain m d where a: "a = (m, d)" by (cases a)
  have split: "plan_commands (a # pl) = interface_commands m d @ plan_commands pl"
    by (simp add: plan_commands_def a)
  have "Interface n \<notin> set (attribute_commands d)"
    using attribute_commands_not_Interface by blast
  then have here: "Interface n \<in> set (interface_commands m d)
                   \<longleftrightarrow> n = m \<and> attribute_commands d \<noteq> []"
    by (auto simp: interface_commands_def)
  have "Interface n \<in> set (plan_commands (a # pl))
        \<longleftrightarrow> Interface n \<in> set (interface_commands m d) \<or> Interface n \<in> set (plan_commands pl)"
    unfolding split by simp
  with here Cons show ?case
    by (auto simp: a)
qed

lemma plan_commands_forms:
  "c \<in> set (plan_commands pl) \<Longrightarrow>
   (\<exists>n. c = Interface n) \<or> (\<exists>d. d \<in> snd ` set pl \<and> c \<in> set (attribute_commands d))"
  by (induction pl) (auto simp: plan_commands_def interface_commands_def split: if_splits)

lemma cleared_attribute_commands:
  "c \<in> set (attribute_commands (interface_deltas deleted x e)) \<Longrightarrow> \<exists>k. c = No k"
  by (cases "port_priority e"; cases "fast_switchover e"; cases "max_bundle e")
    (auto simp: attribute_commands_def interface_deltas_def decide_def decide_fast_switchover_def)

lemma cleared_nothing_iff:
  "attribute_commands (interface_deltas deleted x e) = []
   \<longleftrightarrow> port_priority e = None \<and> fast_switchover e = None \<and> max_bundle e = None"
  by (cases "port_priority e"; cases "fast_switchover e"; cases "max_bundle e")
    (auto simp: attribute_commands_def interface_deltas_def decide_def decide_fast_switchover_def)

lemma entry_of_computed_deltas:
  assumes "configuration_set D" and "configuration_set E"
  shows "(n, x) \<in> set (computed_deltas p D E) \<longleftrightarrow> map_of (computed_deltas p D E) n = Some x"
  using distinct_computed_deltas [OF assms] by simp

text \<open>
  C6. Under deleted with a config that is not empty, for configuration sets \<open>D\<close> and
  \<open>E\<close>: the result is that of the config reduced to its names, so the attribute
  values in the config are ignored. The command that enters an interface is emitted
  exactly for the names of the config that exist with at least one attribute, and
  every other command is a negated one. A name that does not exist gets no command
  and no record. An existing interface that the config does not name gets no
  command, not even the command that enters it, and keeps its record. For an existing
  interface that the config names, the commands in its context are, each once, the
  negated port_priority command exactly when it has a port_priority, the negated
  fast_switchover command exactly when it has a fast_switchover, and the negated
  max_bundle command exactly when it has a max_bundle; its record in the after state
  has no attribute. When no name of the config exists, nothing is emitted and the
  after state is \<open>E\<close>. The after state has the interfaces of \<open>E\<close>, in their order.
\<close>

theorem deleted_selects_by_name:
  assumes "configuration_set D" and "configuration_set E" and "D \<noteq> []"
  shows "reconcile D E deleted = reconcile (map (\<lambda>d. unconfigured (name d)) D) E deleted
   \<and> (Interface n \<in> set (commands (reconcile D E deleted)))
       = (by_name D n \<noteq> None
          \<and> (\<exists>x. by_name E n = Some x
                \<and> (port_priority x \<noteq> None \<or> fast_switchover x \<noteq> None \<or> max_bundle x \<noteq> None)))
   \<and> (\<forall>c \<in> set (commands (reconcile D E deleted)). (\<exists>m. c = Interface m) \<or> (\<exists>k. c = No k))
   \<and> (by_name E n = None
        \<longrightarrow> commands_for n None (commands (reconcile D E deleted)) = []
            \<and> by_name (after (reconcile D E deleted)) n = None)
   \<and> (e \<in> set E \<and> by_name D (name e) = None
        \<longrightarrow> commands_for (name e) None (commands (reconcile D E deleted)) = []
            \<and> Interface (name e) \<notin> set (commands (reconcile D E deleted))
            \<and> by_name (after (reconcile D E deleted)) (name e) = Some e)
   \<and> (e \<in> set E \<and> by_name D (name e) \<noteq> None
        \<longrightarrow> (\<forall>v. (No (Port_priority v)
                    \<in> set (commands_for (name e) None (commands (reconcile D E deleted))))
                  = (port_priority e = Some v))
            \<and> (No Fast_switchover
                    \<in> set (commands_for (name e) None (commands (reconcile D E deleted))))
                  = (fast_switchover e \<noteq> None)
            \<and> (\<forall>v. (No (Max_bundle v)
                    \<in> set (commands_for (name e) None (commands (reconcile D E deleted))))
                  = (max_bundle e = Some v))
            \<and> distinct (commands_for (name e) None (commands (reconcile D E deleted)))
            \<and> by_name (after (reconcile D E deleted)) (name e) = Some (unconfigured (name e)))
   \<and> ((\<forall>d \<in> set D. by_name E (name d) = None)
        \<longrightarrow> commands (reconcile D E deleted) = [] \<and> after (reconcile D E deleted) = E)
   \<and> map name (after (reconcile D E deleted)) = map name E"
proof -
  let ?r = "reconcile D E deleted"
  let ?pl = "computed_deltas deleted D E"
  have 1: "?r = reconcile (map (\<lambda>d. unconfigured (name d)) D) E deleted"
    by (simp add: reconcile_def computed_deltas_deleted_names)
  have entry: "(m, x) \<in> set ?pl
               \<longleftrightarrow> by_name D m \<noteq> None \<and> (\<exists>y. by_name E m = Some y \<and> x = interface_deltas deleted y y)"
    for m x
    using assms by (auto simp: entry_of_computed_deltas map_of_computed_deltas)
  have 2: "(Interface n \<in> set (commands ?r))
       = (by_name D n \<noteq> None
          \<and> (\<exists>x. by_name E n = Some x
                \<and> (port_priority x \<noteq> None \<or> fast_switchover x \<noteq> None \<or> max_bundle x \<noteq> None)))"
    by (auto simp: reconcile_def Interface_in_plan_commands entry cleared_nothing_iff)
  have 3: "\<forall>c \<in> set (commands ?r). (\<exists>m. c = Interface m) \<or> (\<exists>k. c = No k)"
  proof
    fix c assume "c \<in> set (commands ?r)"
    then have "c \<in> set (plan_commands ?pl)" by (simp add: reconcile_def)
    from plan_commands_forms [OF this] show "(\<exists>m. c = Interface m) \<or> (\<exists>k. c = No k)"
    proof
      assume "\<exists>d. d \<in> snd ` set ?pl \<and> c \<in> set (attribute_commands d)"
      then obtain m d where "(m, d) \<in> set ?pl" and c: "c \<in> set (attribute_commands d)"
        by force
      then obtain y where "d = interface_deltas deleted y y" by (auto simp: entry)
      with c show ?thesis by (auto dest: cleared_attribute_commands)
    qed simp
  qed
  have 4: "by_name E n = None
        \<longrightarrow> commands_for n None (commands ?r) = [] \<and> by_name (after ?r) n = None"
    using assms
    by (simp add: commands_for_reconcile by_name_after delta_for_def map_of_computed_deltas)
  have 5: "e \<in> set E \<and> by_name D (name e) = None
        \<longrightarrow> commands_for (name e) None (commands ?r) = []
            \<and> Interface (name e) \<notin> set (commands ?r)
            \<and> by_name (after ?r) (name e) = Some e"
  proof (intro impI conjI)
    assume a: "e \<in> set E \<and> by_name D (name e) = None"
    with assms show "commands_for (name e) None (commands ?r) = []"
      by (simp add: commands_for_reconcile delta_for_def map_of_computed_deltas)
    from a assms show "by_name (after ?r) (name e) = Some e"
      by (simp add: by_name_after delta_for_def map_of_computed_deltas
          configuration_set_def by_name_distinct)
    from a show "Interface (name e) \<notin> set (commands ?r)"
      by (simp add: reconcile_def Interface_in_plan_commands entry)
  qed
  have 6: "e \<in> set E \<and> by_name D (name e) \<noteq> None
        \<longrightarrow> (\<forall>v. (No (Port_priority v) \<in> set (commands_for (name e) None (commands ?r)))
                  = (port_priority e = Some v))
            \<and> (No Fast_switchover \<in> set (commands_for (name e) None (commands ?r)))
                  = (fast_switchover e \<noteq> None)
            \<and> (\<forall>v. (No (Max_bundle v) \<in> set (commands_for (name e) None (commands ?r)))
                  = (max_bundle e = Some v))
            \<and> distinct (commands_for (name e) None (commands ?r))
            \<and> by_name (after ?r) (name e) = Some (unconfigured (name e))"
  proof
    assume a: "e \<in> set E \<and> by_name D (name e) \<noteq> None"
    with assms have cs: "commands_for (name e) None (commands ?r)
                         = attribute_commands (interface_deltas deleted e e)"
      by (auto simp add: commands_for_reconcile delta_for_def map_of_computed_deltas
          configuration_set_def by_name_distinct)
    from a assms have af: "by_name (after ?r) (name e) = Some (unconfigured (name e))"
      by (auto simp add: by_name_after delta_for_def map_of_computed_deltas
          configuration_set_def by_name_distinct cleared_is_unconfigured)
    show "(\<forall>v. (No (Port_priority v) \<in> set (commands_for (name e) None (commands ?r)))
                  = (port_priority e = Some v))
            \<and> (No Fast_switchover \<in> set (commands_for (name e) None (commands ?r)))
                  = (fast_switchover e \<noteq> None)
            \<and> (\<forall>v. (No (Max_bundle v) \<in> set (commands_for (name e) None (commands ?r)))
                  = (max_bundle e = Some v))
            \<and> distinct (commands_for (name e) None (commands ?r))
            \<and> by_name (after ?r) (name e) = Some (unconfigured (name e))"
      unfolding cs af negate_command_emitted
      by (auto simp: distinct_attribute_commands interface_deltas_def decide_def
          decide_fast_switchover_def split: option.splits)
  qed
  have 7: "(\<forall>d \<in> set D. by_name E (name d) = None)
        \<longrightarrow> commands ?r = [] \<and> after ?r = E"
  proof
    assume "\<forall>d \<in> set D. by_name E (name d) = None"
    with assms(3) have "?pl = []"
      by (simp add: computed_deltas_def)
    then show "commands ?r = [] \<and> after ?r = E"
      by (simp add: reconcile_def plan_commands_def apply_plan_def delta_for_def)
  qed
  have "by_name E m \<noteq> None" if "(m, x) \<in> set ?pl" for m x
    using that by (auto simp: entry)
  then have "filter (\<lambda>(n, d). by_name E n = None) ?pl = []"
    by (auto simp: filter_empty_conv)
  then have 8: "map name (after ?r) = map name E"
    by (simp add: reconcile_def apply_plan_def comp_def)
  show ?thesis
    by (intro conjI 1 2 3 4 5 6 7 8)
qed

theorem deleted_selects_by_name_witness:
  "Interface ''GigabitEthernet0/2'' \<notin> set (commands (reconcile deleted_config deleted_before deleted))
   \<and> by_name (after (reconcile deleted_config deleted_before deleted)) ''GigabitEthernet0/2''
     = Some (lacp ''GigabitEthernet0/2'' (Some 20) None None)
   \<and> No (Port_priority 10)
       \<in> set (commands_for ''GigabitEthernet0/1'' None
                (commands (reconcile deleted_config deleted_before deleted)))
   \<and> by_name (after (reconcile deleted_config deleted_before deleted)) ''GigabitEthernet0/1''
     = Some (unconfigured ''GigabitEthernet0/1'')"
proof -
  let ?r = "reconcile deleted_config deleted_before deleted"
  let ?e1 = "lacp ''GigabitEthernet0/1'' (Some 10) None None"
  let ?e2 = "lacp ''GigabitEthernet0/2'' (Some 20) None None"
  have sets: "configuration_set deleted_config" "configuration_set deleted_before"
    "deleted_config \<noteq> []"
    by (simp_all add: configuration_set_def deleted_config_def deleted_before_def)
  have e2: "?e2 \<in> set deleted_before \<and> by_name deleted_config (name ?e2) = None"
    by (simp add: deleted_config_def deleted_before_def)
  have e1: "?e1 \<in> set deleted_before \<and> by_name deleted_config (name ?e1) \<noteq> None"
    by (simp add: deleted_config_def deleted_before_def)
  note t2 = deleted_selects_by_name [OF sets, where e = ?e2]
  note t1 = deleted_selects_by_name [OF sets, where e = ?e1]
  from t2 [THEN conjunct2, THEN conjunct2, THEN conjunct2, THEN conjunct2, THEN conjunct1,
      rule_format, OF e2]
  have "Interface (name ?e2) \<notin> set (commands ?r)"
    and "by_name (after ?r) (name ?e2) = Some ?e2"
    by simp_all
  moreover
  from t1 [THEN conjunct2, THEN conjunct2, THEN conjunct2, THEN conjunct2, THEN conjunct2,
      THEN conjunct1, rule_format, OF e1]
  have "(No (Port_priority 10) \<in> set (commands_for (name ?e1) None (commands ?r)))
          = (port_priority ?e1 = Some 10)"
    and "by_name (after ?r) (name ?e1) = Some (unconfigured (name ?e1))"
    by simp_all
  ultimately show ?thesis by (simp add: lacp_def)
qed

subsection \<open>The result of a reconciliation\<close>











end
